theory Spec2Isabelle
  imports Main "HOL-Library.Word" "HOL-Library.AList"
begin

unbundle bit_operations_syntax

section \<open>Python strings\<close>

text \<open>
  A Python \<open>str\<close> is a sequence of code points. It is modelled by \<open>string\<close>, whose
  characters are the code points below 256. On that range the character classes below are
  those of CPython's Unicode database: \<open>str.isspace\<close> (also the class \<open>\s\<close> of \<open>re\<close>
  and what \<open>str.strip\<close> removes), \<open>str.isalnum\<close> (with the underscore, the class \<open>\w\<close>)
  and \<open>str.lower\<close>, which on this range maps one code point to one code point.
\<close>

definition isspace :: "char \<Rightarrow> bool" where
  "isspace c =
     (let n = (of_char c :: nat)
      in (9 \<le> n \<and> n \<le> 13) \<or> (28 \<le> n \<and> n \<le> 32) \<or> n = 133 \<or> n = 160)"

definition isalnum :: "char \<Rightarrow> bool" where
  "isalnum c =
     (let n = (of_char c :: nat)
      in (48 \<le> n \<and> n \<le> 57) \<or> (65 \<le> n \<and> n \<le> 90) \<or> (97 \<le> n \<and> n \<le> 122)
         \<or> n = 170 \<or> n = 178 \<or> n = 179 \<or> n = 181 \<or> n = 185 \<or> n = 186
         \<or> (188 \<le> n \<and> n \<le> 190) \<or> (192 \<le> n \<and> n \<le> 214)
         \<or> (216 \<le> n \<and> n \<le> 246) \<or> (248 \<le> n \<and> n \<le> 255))"

definition isupper :: "char \<Rightarrow> bool" where
  "isupper c =
     (let n = (of_char c :: nat)
      in (65 \<le> n \<and> n \<le> 90) \<or> (192 \<le> n \<and> n \<le> 214) \<or> (216 \<le> n \<and> n \<le> 222))"

definition lower_char :: "char \<Rightarrow> char" where
  "lower_char c = (if isupper c then char_of ((of_char c :: nat) + 32) else c)"

definition lower :: "string \<Rightarrow> string" where
  "lower s = map lower_char s"

definition strip :: "string \<Rightarrow> string" where
  "strip s = rev (dropWhile isspace (rev (dropWhile isspace s)))"

definition endswith :: "string \<Rightarrow> string \<Rightarrow> bool" where
  "endswith s suffix =
     (length suffix \<le> length s \<and> drop (length s - length suffix) s = suffix)"

text \<open>\<open>s.split(sep)\<close> for a separator of one character: never an empty list.\<close>

fun split_on :: "char \<Rightarrow> string \<Rightarrow> string list" where
  "split_on sep [] = [[]]"
| "split_on sep (c # cs) =
     (if c = sep then [] # split_on sep cs
      else (c # hd (split_on sep cs)) # tl (split_on sep cs))"

text \<open>
  \<open>re.sub\<close> for the two shapes of pattern the program uses, with a literal replacement:
  \<open>re_sub_plus P repl\<close> is \<open>re.sub("C+", repl, s)\<close> and \<open>re_sub_class P repl\<close> is
  \<open>re.sub("C", repl, s)\<close>, for a character class \<open>C\<close> that matches the characters
  satisfying \<open>P\<close>. The scan goes left to right; \<open>+\<close> is greedy, so a match takes the
  whole run and the scan resumes after it.
\<close>

function re_sub_plus :: "(char \<Rightarrow> bool) \<Rightarrow> string \<Rightarrow> string \<Rightarrow> string" where
  "re_sub_plus P repl [] = []"
| "re_sub_plus P repl (c # cs) =
     (if P c then repl @ re_sub_plus P repl (dropWhile P cs)
      else c # re_sub_plus P repl cs)"
  by pat_completeness auto

termination re_sub_plus
proof (relation "measure (\<lambda>(P, repl, s). length s)")
  show "wf (measure (\<lambda>(P, repl, s). length s))" by simp
next
  fix P :: "char \<Rightarrow> bool" and repl :: string and c :: char and cs :: string
  have "length (dropWhile P cs) \<le> length cs" by (rule length_dropWhile_le)
  then show "((P, repl, dropWhile P cs), (P, repl, c # cs)) \<in> measure (\<lambda>(P, repl, s). length s)"
    by simp
next
  fix P :: "char \<Rightarrow> bool" and repl :: string and c :: char and cs :: string
  show "((P, repl, cs), (P, repl, c # cs)) \<in> measure (\<lambda>(P, repl, s). length s)"
    by simp
qed

fun re_sub_class :: "(char \<Rightarrow> bool) \<Rightarrow> string \<Rightarrow> string \<Rightarrow> string" where
  "re_sub_class P repl [] = []"
| "re_sub_class P repl (c # cs) =
     (if P c then repl @ re_sub_class P repl cs else c # re_sub_class P repl cs)"

text \<open>The class \<open>[^\w\-]\<close>: neither a word character nor the hyphen.\<close>

definition not_word_or_hyphen :: "char \<Rightarrow> bool" where
  "not_word_or_hyphen c = (\<not> (isalnum c \<or> c = CHR ''_'' \<or> c = CHR ''-''))"

section \<open>The name sanitizer\<close>

text \<open>
  \<^verbatim>\<open>
  def safe_dirname(name):
      s = name.strip().lower()
      s = re.sub(r"\s+", "_", s)
      s = re.sub(r"[^\w\-]", "", s)
      return s or "unnamed_recipe"
  \<close>
\<close>

definition safe_dirname :: "string \<Rightarrow> string" where
  "safe_dirname name =
     (let s = lower (strip name);
          s = re_sub_plus isspace ''_'' s;
          s = re_sub_class not_word_or_hyphen [] s
      in if s = [] then ''unnamed_recipe'' else s)"

text \<open>
  The sanitizer as the specification words it. Trimming cuts the longest whitespace
  prefix and the longest whitespace suffix; the string is then cut into its maximal runs
  of whitespace and of other characters, and every whitespace run becomes one underscore;
  last, only alphanumerics, underscores and hyphens are kept.
\<close>

definition trim_spec :: "string \<Rightarrow> string" where
  "trim_spec s =
     (let t = drop (length (takeWhile isspace s)) s
      in take (length t - length (takeWhile isspace (rev t))) t)"

function runs_spec :: "(char \<Rightarrow> bool) \<Rightarrow> string \<Rightarrow> string list" where
  "runs_spec P [] = []"
| "runs_spec P (c # cs) =
     (c # takeWhile (\<lambda>d. P d = P c) cs) # runs_spec P (dropWhile (\<lambda>d. P d = P c) cs)"
  by pat_completeness auto

termination runs_spec
proof (relation "measure (\<lambda>(P, s). length s)")
  show "wf (measure (\<lambda>(P, s). length s))" by simp
next
  fix P :: "char \<Rightarrow> bool" and c :: char and cs :: string
  have "length (dropWhile (\<lambda>d. P d = P c) cs) \<le> length cs" by (rule length_dropWhile_le)
  then show "((P, dropWhile (\<lambda>d. P d = P c) cs), (P, c # cs)) \<in> measure (\<lambda>(P, s). length s)"
    by simp
qed

definition safe_dirname_spec :: "string \<Rightarrow> string" where
  "safe_dirname_spec name =
     (let trimmed = trim_spec name;
          lowered = map lower_char trimmed;
          joined = concat (map (\<lambda>run. if isspace (hd run) then ''_'' else run)
                               (runs_spec isspace lowered));
          kept = filter (\<lambda>c. isalnum c \<or> c = CHR ''_'' \<or> c = CHR ''-'') joined
      in if kept = [] then ''unnamed_recipe'' else kept)"



section \<open>JSON values and Python exceptions\<close>

text \<open>
  What \<open>json.load\<close> returns. A \<open>float\<close> is kept as its 64 bits, since the program only
  copies it or tests it for zero. \<open>JObj kvs\<close> is the \<open>dict\<close> whose lookup is
  \<open>map_of kvs\<close>.
\<close>

datatype json =
    JNull
  | JBool bool
  | JInt int
  | JFloat "64 word"
  | JStr string
  | JArr "json list"
  | JObj "(string \<times> json) list"

type_synonym pydict = "(string \<times> json) list"

datatype exn =
    AttributeError
  | TypeError
  | ValueError
  | KeyError
  | BinasciiError
  | FileNotFoundError
  | FileExistsError
  | NotADirectoryError
  | IsADirectoryError
  | BadGzipFile
  | JSONDecodeError
  | BadZipFile

text \<open>\<open>d.get(k, dflt)\<close>.\<close>

definition dict_get :: "pydict \<Rightarrow> string \<Rightarrow> json \<Rightarrow> json" where
  "dict_get d k dflt = (case map_of d k of Some v \<Rightarrow> v | None \<Rightarrow> dflt)"

text \<open>Python's truth value of a JSON value, as \<open>if photo_data:\<close> tests it.\<close>

definition truthy :: "json \<Rightarrow> bool" where
  "truthy v =
     (case v of
        JNull \<Rightarrow> False
      | JBool b \<Rightarrow> b
      | JInt i \<Rightarrow> i \<noteq> 0
      | JFloat x \<Rightarrow> push_bit 1 x \<noteq> 0
      | JStr s \<Rightarrow> s \<noteq> []
      | JArr xs \<Rightarrow> xs \<noteq> []
      | JObj kvs \<Rightarrow> kvs \<noteq> [])"

section \<open>The record mapper\<close>

text \<open>\<^verbatim>\<open>[line.strip() for line in s.split("\n") if line.strip()]\<close>\<close>

definition stripped_lines :: "string \<Rightarrow> string list" where
  "stripped_lines s =
     map strip (filter (\<lambda>line. strip line \<noteq> []) (split_on (CHR 0x0A) s))"

text \<open>
  \<^verbatim>\<open>
  directions = []
  if "directions" in paprika_json and isinstance(paprika_json["directions"], str):
      directions = [...]
  \<close>
\<close>

definition lines_field :: "pydict \<Rightarrow> string \<Rightarrow> json" where
  "lines_field d k =
     (case map_of d k of
        Some (JStr s) \<Rightarrow> JArr (map JStr (stripped_lines s))
      | _ \<Rightarrow> JArr [])"

text \<open>
  \<open>paprika_to_schemaorg\<close>. The argument is whatever \<open>json.load\<close> returned; a value
  that is not a \<open>dict\<close> has no method \<open>get\<close>. The result is the \<open>dict\<close> literal of the
  source, in its order.
\<close>

definition paprika_to_schemaorg :: "json \<Rightarrow> exn + pydict" where
  "paprika_to_schemaorg paprika_json =
     (case paprika_json of
        JObj d \<Rightarrow>
          (let name = dict_get d ''name'' (JStr ''Untitled'');
               image = dict_get d ''image_url'' (JStr []);
               directions = lines_field d ''directions'';
               ingredients = lines_field d ''ingredients''
           in Inr
             [(''@context'', JStr ''https://schema.org/''),
              (''@type'', JStr ''Recipe''),
              (''name'', name),
              (''image'', image),
              (''recipeIngredient'', ingredients),
              (''recipeInstructions'', directions),
              (''description'', dict_get d ''description'' (JStr [])),
              (''cookTime'', dict_get d ''cook_time'' (JStr [])),
              (''prepTime'', dict_get d ''prep_time'' (JStr [])),
              (''totalTime'', dict_get d ''total_time'' (JStr [])),
              (''recipeYield'', dict_get d ''servings'' (JStr [])),
              (''aggregateRating'', JObj
                 [(''@type'', JStr ''AggregateRating''),
                  (''ratingValue'', dict_get d ''rating'' (JInt 0)),
                  (''ratingCount'', JInt 1)]),
              (''author'', dict_get d ''source'' (JStr [])),
              (''url'', dict_get d ''source_url'' (JStr [])),
              (''notes'', dict_get d ''notes'' (JStr [])),
              (''difficulty'', dict_get d ''difficulty'' (JStr [])),
              (''nutritionalInfo'', dict_get d ''nutritional_info'' (JStr [])),
              (''category'', dict_get d ''categories'' (JArr []))])
      | _ \<Rightarrow> Inl AttributeError)"

text \<open>The keys of the \<open>dict\<close> literal, and the source keys the mapper reads.\<close>

definition schema_keys :: "string list" where
  "schema_keys =
     [''@context'', ''@type'', ''name'', ''image'', ''recipeIngredient'',
      ''recipeInstructions'', ''description'', ''cookTime'', ''prepTime'', ''totalTime'',
      ''recipeYield'', ''aggregateRating'', ''author'', ''url'', ''notes'', ''difficulty'',
      ''nutritionalInfo'', ''category'']"

definition source_keys :: "string list" where
  "source_keys =
     [''name'', ''image_url'', ''directions'', ''ingredients'', ''description'',
      ''cook_time'', ''prep_time'', ''total_time'', ''servings'', ''rating'', ''source'',
      ''source_url'', ''notes'', ''difficulty'', ''nutritional_info'', ''categories'']"

text \<open>The string-valued source fields with the target key each is copied to.\<close>

definition string_fields :: "(string \<times> string) list" where
  "string_fields =
     [(''name'', ''name''), (''image_url'', ''image''), (''description'', ''description''),
      (''cook_time'', ''cookTime''), (''prep_time'', ''prepTime''),
      (''total_time'', ''totalTime''), (''servings'', ''recipeYield''),
      (''source'', ''author''), (''source_url'', ''url''), (''notes'', ''notes''),
      (''difficulty'', ''difficulty''), (''nutritional_info'', ''nutritionalInfo'')]"

definition sequence_fields :: "(string \<times> string) list" where
  "sequence_fields =
     [(''ingredients'', ''recipeIngredient''), (''directions'', ''recipeInstructions''),
      (''categories'', ''category'')]"

text \<open>Reading the mapper's result: a field of the target record, and a field of its
  nested rating object.\<close>

definition field_of :: "exn + pydict \<Rightarrow> string \<Rightarrow> json option" where
  "field_of r k = (case r of Inr t \<Rightarrow> map_of t k | Inl _ \<Rightarrow> None)"

definition rating_field :: "exn + pydict \<Rightarrow> string \<Rightarrow> json option" where
  "rating_field r k =
     (case field_of r ''aggregateRating'' of Some (JObj a) \<Rightarrow> map_of a k | _ \<Rightarrow> None)"

text \<open>
  The derived sequences as the specification words them: split the string on newline,
  trim each line, discard the empty lines, keep the order; the empty sequence for an
  absent field and for a value that is not a string.
\<close>

function split_spec :: "string \<Rightarrow> string list" where
  "split_spec s =
     takeWhile (\<lambda>c. c \<noteq> CHR 0x0A) s
     # (case dropWhile (\<lambda>c. c \<noteq> CHR 0x0A) s of [] \<Rightarrow> [] | _ # rest \<Rightarrow> split_spec rest)"
  by pat_completeness auto

termination split_spec
proof (relation "measure length")
  show "wf (measure length)" by simp
next
  fix s :: string and x :: char and rest :: string
  assume "dropWhile (\<lambda>c. c \<noteq> CHR 0x0A) s = x # rest"
  then have "length (x # rest) \<le> length s"
    using length_dropWhile_le [of "\<lambda>c. c \<noteq> CHR 0x0A" s] by simp
  then show "(rest, s) \<in> measure length" by simp
qed

declare split_spec.simps [simp del]

definition lines_spec :: "json option \<Rightarrow> json" where
  "lines_spec field =
     (case field of
        Some (JStr s) \<Rightarrow> JArr (map JStr (filter (\<lambda>line. line \<noteq> []) (map trim_spec (split_spec s))))
      | _ \<Rightarrow> JArr [])"

text \<open>Joining with a separator, the inverse of splitting.\<close>

fun join_with :: "char \<Rightarrow> string list \<Rightarrow> string" where
  "join_with sep [] = []"
| "join_with sep [x] = x"
| "join_with sep (x # y # ys) = x @ sep # join_with sep (y # ys)"

section \<open>Base64 decoding\<close>

text \<open>
  \<open>base64.b64decode(s)\<close> with its default \<open>validate=False\<close>, as CPython implements
  it: a \<open>str\<close> must be ASCII and is handed to \<open>binascii.a2b_base64\<close>, which skips every
  character outside the alphabet, skips a pad character that cannot end a quad, stops at
  the pad that completes a quad, and raises only when the data characters end inside a
  quad. Any argument that is neither \<open>str\<close> nor bytes-like is a \<open>TypeError\<close>.
\<close>

definition b64_value :: "char \<Rightarrow> 8 word option" where
  "b64_value c =
     (let n = (of_char c :: nat)
      in if 65 \<le> n \<and> n \<le> 90 then Some (of_nat (n - 65))
         else if 97 \<le> n \<and> n \<le> 122 then Some (of_nat (n - 71))
         else if 48 \<le> n \<and> n \<le> 57 then Some (of_nat (n + 4))
         else if n = 43 then Some 62
         else if n = 47 then Some 63
         else None)"

fun a2b_base64 :: "nat \<Rightarrow> 8 word \<Rightarrow> nat \<Rightarrow> 8 word list \<Rightarrow> string \<Rightarrow> exn + 8 word list" where
  "a2b_base64 quad_pos leftchar pads bin_data [] =
     (if quad_pos \<noteq> 0 then Inl BinasciiError else Inr bin_data)"
| "a2b_base64 quad_pos leftchar pads bin_data (this_ch # rest) =
     (if this_ch = CHR ''='' then
        (if quad_pos \<ge> 2 \<and> quad_pos + (pads + 1) \<ge> 4 then Inr bin_data
         else a2b_base64 quad_pos leftchar (if quad_pos \<ge> 2 then pads + 1 else pads)
                bin_data rest)
      else
        (case b64_value this_ch of
           None \<Rightarrow> a2b_base64 quad_pos leftchar pads bin_data rest
         | Some v \<Rightarrow>
             if quad_pos = 0 then a2b_base64 1 v 0 bin_data rest
             else if quad_pos = 1 then
               a2b_base64 2 (v AND 0x0f) 0
                 (bin_data @ [push_bit 2 leftchar OR drop_bit 4 v]) rest
             else if quad_pos = 2 then
               a2b_base64 3 (v AND 0x03) 0
                 (bin_data @ [push_bit 4 leftchar OR drop_bit 2 v]) rest
             else
               a2b_base64 0 0 0 (bin_data @ [push_bit 6 leftchar OR v]) rest))"

definition b64decode :: "json \<Rightarrow> exn + 8 word list" where
  "b64decode s =
     (case s of
        JStr cs \<Rightarrow>
          if \<exists>c \<in> set cs. (of_char c :: nat) \<ge> 128 then Inl ValueError
          else a2b_base64 0 0 0 [] cs
      | _ \<Rightarrow> Inl TypeError)"

section \<open>The file system and the console\<close>

text \<open>
  A file holds what the libraries would read from it or have written to it: raw bytes,
  the JSON text of a value (\<open>json.dump\<close> and \<open>json.load\<close>), a gzip stream of some
  content, or a zip archive of named members. The file system maps a path, exactly as the
  program spells it, to a file or a directory; the console is the list of lines printed.
\<close>

datatype content =
    Bytes "8 word list"
  | JsonText json
  | Gzip content
  | ZipArchive "(string \<times> content) list"

datatype node = File content | Dir

type_synonym fs = "(string \<times> node) list"

datatype msg =
    Usage
  | PhotoError string exn
  | Converted string string
  | WriteError string exn
  | FileError string exn
  | MemberError string string exn
  | BulkError string exn
  | Unrecognized string
  | NotFileOrDir string
  | Done string

record world =
  files :: fs
  out :: "msg list"

definition emit :: "msg \<Rightarrow> world \<Rightarrow> world" where
  "emit m w = w\<lparr>out := out w @ [m]\<rparr>"


definition isdir :: "string \<Rightarrow> fs \<Rightarrow> bool" where
  "isdir p fs = (map_of fs p = Some Dir)"

definition isfile :: "string \<Rightarrow> fs \<Rightarrow> bool" where
  "isfile p fs = (case map_of fs p of Some (File _) \<Rightarrow> True | _ \<Rightarrow> False)"

text \<open>\<open>os.path.join(a, b)\<close> and \<open>os.path.basename(p)\<close> of \<open>posixpath\<close>.\<close>

definition path_join :: "string \<Rightarrow> string \<Rightarrow> string" where
  "path_join a b =
     (if b \<noteq> [] \<and> hd b = CHR ''/'' then b
      else if a = [] \<or> last a = CHR ''/'' then a @ b
      else a @ ''/'' @ b)"

definition basename :: "string \<Rightarrow> string" where
  "basename p = rev (takeWhile (\<lambda>c. c \<noteq> CHR ''/'') (rev p))"

text \<open>The directories above a path: its prefixes that end before a separator.\<close>

fun path_prefixes :: "string \<Rightarrow> string \<Rightarrow> string list" where
  "path_prefixes acc [] = []"
| "path_prefixes acc (c # cs) =
     (if c = CHR ''/'' \<and> acc \<noteq> [] \<and> last acc \<noteq> CHR ''/'' then [acc] else [])
     @ path_prefixes (acc @ [c]) cs"

definition ancestors :: "string \<Rightarrow> string list" where
  "ancestors p = path_prefixes [] p"

text \<open>
  \<open>os.makedirs(p, exist_ok=True)\<close>: fails on the empty path and where the path or a
  directory above it is a file; otherwise the path and the directories above it exist
  afterwards.
\<close>

definition makedirs :: "string \<Rightarrow> fs \<Rightarrow> exn + fs" where
  "makedirs p fs =
     (if p = [] then Inl FileNotFoundError
      else if \<exists>q \<in> set (ancestors p). isfile q fs then Inl NotADirectoryError
      else if isfile p fs then Inl FileExistsError
      else Inr (fold (\<lambda>q. AList.update q Dir) (ancestors p @ [p]) fs))"

text \<open>
  \<open>with open(p, "wb") as f: f.write(c)\<close>, and the same in text mode: fails on a
  directory, otherwise creates or replaces the file. The directory part of the path is
  not looked at: the program writes only into a folder it has just created.
\<close>

definition write_file :: "string \<Rightarrow> content \<Rightarrow> fs \<Rightarrow> exn + fs" where
  "write_file p c fs =
     (case map_of fs p of
        Some Dir \<Rightarrow> Inl IsADirectoryError
      | _ \<Rightarrow> Inr (AList.update p (File c) fs))"

definition read_file :: "string \<Rightarrow> fs \<Rightarrow> exn + content" where
  "read_file p fs =
     (case map_of fs p of
        Some (File c) \<Rightarrow> Inr c
      | Some Dir \<Rightarrow> Inl IsADirectoryError
      | None \<Rightarrow> Inl FileNotFoundError)"

text \<open>\<open>os.listdir(p)\<close>: the names directly under \<open>p\<close>.\<close>

definition listdir :: "string \<Rightarrow> fs \<Rightarrow> string list" where
  "listdir p fs =
     (let pre = path_join p []
      in remdups
           (filter (\<lambda>name. name \<noteq> [] \<and> CHR ''/'' \<notin> set name)
              (map (\<lambda>(k, _). drop (length pre) k)
                 (filter (\<lambda>(k, _). take (length pre) k = pre) fs))))"

text \<open>
  Decompressing gzip data, decoding it as UTF-8 and parsing it as JSON succeeds on a
  gzip stream of JSON text and on nothing else.
\<close>

definition load_gzip_json :: "content \<Rightarrow> exn + json" where
  "load_gzip_json c =
     (case c of
        Gzip (JsonText j) \<Rightarrow> Inr j
      | Gzip _ \<Rightarrow> Inl JSONDecodeError
      | _ \<Rightarrow> Inl BadGzipFile)"

text \<open>\<open>zipfile.ZipFile(p, "r")\<close> and \<open>zf.open(member).read()\<close>; of two members with
  one name the later one is read.\<close>

definition open_zip :: "string \<Rightarrow> fs \<Rightarrow> exn + (string \<times> content) list" where
  "open_zip p fs =
     (case read_file p fs of
        Inl e \<Rightarrow> Inl e
      | Inr (ZipArchive members) \<Rightarrow> Inr members
      | Inr _ \<Rightarrow> Inl BadZipFile)"

definition zip_read :: "(string \<times> content) list \<Rightarrow> string \<Rightarrow> exn + content" where
  "zip_read members member =
     (case map_of (rev members) member of Some c \<Rightarrow> Inr c | None \<Rightarrow> Inl KeyError)"

section \<open>The record materializer\<close>

text \<open>
  The photo block of \<open>process_recipe_data\<close>:
  \<^verbatim>\<open>
  photo_data = paprika_data.get("photo_data")
  if photo_data:
      try:
          raw = base64.b64decode(photo_data)
          full_path = os.path.join(recipe_folder, "full.jpg")
          with open(full_path, "wb") as fimg:
              fimg.write(raw)
          schema_recipe["image"] = "full.jpg"
      except Exception as e:
          print(f"Error decoding photo for recipe '{recipe_name}': {e}")
  \<close>
\<close>

definition save_photo :: "pydict \<Rightarrow> string \<Rightarrow> string \<Rightarrow> pydict \<Rightarrow> world \<Rightarrow> pydict \<times> world" where
  "save_photo paprika_data recipe_name recipe_folder schema_recipe w =
     (let photo_data = dict_get paprika_data ''photo_data'' JNull
      in if truthy photo_data then
           (case b64decode photo_data of
              Inl e \<Rightarrow> (schema_recipe, emit (PhotoError recipe_name e) w)
            | Inr raw \<Rightarrow>
                (case write_file (path_join recipe_folder ''full.jpg'') (Bytes raw) (files w) of
                   Inl e \<Rightarrow> (schema_recipe, emit (PhotoError recipe_name e) w)
                 | Inr fs' \<Rightarrow>
                     (AList.update ''image'' (JStr ''full.jpg'') schema_recipe,
                      w\<lparr>files := fs'\<rparr>)))
         else (schema_recipe, w))"

text \<open>
  The last block of \<open>process_recipe_data\<close>:
  \<^verbatim>\<open>
  out_json_path = os.path.join(recipe_folder, "recipe.json")
  try:
      with open(out_json_path, "w", encoding="utf-8") as jf:
          json.dump(schema_recipe, jf, indent=2, ensure_ascii=False)
      print(f"Converted {source_name or recipe_name} -> {out_json_path}")
  except Exception as e:
      print(f"Error writing recipe '{recipe_name}': {e}")
  \<close>
\<close>

definition write_recipe_json :: "string \<Rightarrow> string \<Rightarrow> string \<Rightarrow> pydict \<Rightarrow> world \<Rightarrow> world" where
  "write_recipe_json recipe_name recipe_folder source_name schema_recipe w =
     (let out_json_path = path_join recipe_folder ''recipe.json''
      in case write_file out_json_path (JsonText (JObj schema_recipe)) (files w) of
           Inl e \<Rightarrow> emit (WriteError recipe_name e) w
         | Inr fs' \<Rightarrow>
             emit (Converted (if source_name \<noteq> [] then source_name else recipe_name)
                     out_json_path)
               (w\<lparr>files := fs'\<rparr>))"

text \<open>
  \<open>process_recipe_data\<close>. Three things raise out of it, each before anything is written:
  the mapper on a value that is not a \<open>dict\<close>, \<open>safe_dirname\<close> on a name that is not a
  \<open>str\<close> (it has no method \<open>strip\<close>), and \<open>os.makedirs\<close>. Once the mapper has
  returned, \<open>paprika_data\<close> is a \<open>dict\<close>, which the photo block reads.
\<close>

definition process_recipe_data :: "json \<Rightarrow> string \<Rightarrow> string \<Rightarrow> world \<Rightarrow> exn + world" where
  "process_recipe_data paprika_data output_dir source_name w =
     (case paprika_to_schemaorg paprika_data of
        Inl e \<Rightarrow> Inl e
      | Inr schema_recipe \<Rightarrow>
          (case dict_get schema_recipe ''name'' (JStr ''Untitled'') of
             JStr recipe_name \<Rightarrow>
               (let folder_name = safe_dirname recipe_name;
                    recipe_folder = path_join output_dir folder_name
                in case makedirs recipe_folder (files w) of
                     Inl e \<Rightarrow> Inl e
                   | Inr fs' \<Rightarrow>
                       (let (schema_recipe', w') =
                              save_photo (case paprika_data of JObj d \<Rightarrow> d | _ \<Rightarrow> [])
                                recipe_name recipe_folder schema_recipe (w\<lparr>files := fs'\<rparr>)
                        in Inr (write_recipe_json recipe_name recipe_folder source_name
                                  schema_recipe' w')))
           | _ \<Rightarrow> Inl AttributeError))"

text \<open>A field of the target record stored as JSON text at a path, if there is one.\<close>

definition stored_field :: "fs \<Rightarrow> string \<Rightarrow> string \<Rightarrow> json option" where
  "stored_field fs p k =
     (case map_of fs p of Some (File (JsonText (JObj t))) \<Rightarrow> map_of t k | _ \<Rightarrow> None)"

section \<open>The input resolvers and the entry point\<close>

text \<open>
  \<^verbatim>\<open>
  try:
      with gzip.open(file_path, "rt", encoding="utf-8") as f:
          paprika_data = json.load(f)
      process_recipe_data(paprika_data, output_dir, source_name=os.path.basename(file_path))
  except Exception as e:
      print(f"Error processing file {file_path}: {e}")
  \<close>
\<close>

definition process_paprikarecipe_file :: "string \<Rightarrow> string \<Rightarrow> world \<Rightarrow> world" where
  "process_paprikarecipe_file file_path output_dir w =
     (case read_file file_path (files w) of
        Inl e \<Rightarrow> emit (FileError file_path e) w
      | Inr c \<Rightarrow>
          (case load_gzip_json c of
             Inl e \<Rightarrow> emit (FileError file_path e) w
           | Inr paprika_data \<Rightarrow>
               (case process_recipe_data paprika_data output_dir (basename file_path) w of
                  Inl e \<Rightarrow> emit (FileError file_path e) w
                | Inr w' \<Rightarrow> w')))"

text \<open>
  The body of the loop over \<open>zf.namelist()\<close> in \<open>process_bulk_export\<close>. Reading the
  member, decompressing it and parsing it are the first three lines of the \<open>try\<close>:
  \<^verbatim>\<open>
  if member.lower().endswith(".paprikarecipe"):
      try:
          with zf.open(member) as mf:
              compressed_data = mf.read()
              text_data = gzip.decompress(compressed_data).decode("utf-8")
              paprika_data = json.loads(text_data)
              process_recipe_data(paprika_data, output_dir, source_name=member)
      except Exception as e:
          print(f"Error processing member {member} in {zip_path}: {e}")
  \<close>
\<close>

definition read_member :: "(string \<times> content) list \<Rightarrow> string \<Rightarrow> exn + json" where
  "read_member members member =
     (case zip_read members member of
        Inl e \<Rightarrow> Inl e
      | Inr compressed_data \<Rightarrow> load_gzip_json compressed_data)"

definition process_member ::
  "string \<Rightarrow> string \<Rightarrow> (string \<times> content) list \<Rightarrow> string \<Rightarrow> world \<Rightarrow> world" where
  "process_member zip_path output_dir members member w =
     (if endswith (lower member) ''.paprikarecipe'' then
        (case read_member members member of
           Inl e \<Rightarrow> emit (MemberError member zip_path e) w
         | Inr paprika_data \<Rightarrow>
             (case process_recipe_data paprika_data output_dir member w of
                Inl e \<Rightarrow> emit (MemberError member zip_path e) w
              | Inr w' \<Rightarrow> w'))
      else w)"




definition process_bulk_export :: "string \<Rightarrow> string \<Rightarrow> world \<Rightarrow> world" where
  "process_bulk_export zip_path output_dir w =
     (case open_zip zip_path (files w) of
        Inl e \<Rightarrow> emit (BulkError zip_path e) w
      | Inr members \<Rightarrow>
          fold (process_member zip_path output_dir members) (map fst members) w)"

text \<open>The body of the loop over \<open>os.listdir(input_path)\<close> in \<open>main\<close>.\<close>

definition process_dir_entry :: "string \<Rightarrow> string \<Rightarrow> string \<Rightarrow> world \<Rightarrow> world" where
  "process_dir_entry input_path output_dir fname w =
     (let file_path = path_join input_path fname
      in if isfile file_path (files w) \<and> endswith (lower fname) ''.paprikarecipe''
         then process_paprikarecipe_file file_path output_dir w
         else w)"

text \<open>
  \<open>main\<close>, from \<open>sys.argv\<close> and the world to the world it leaves and the exit status of
  the interpreter: the argument of \<open>sys.exit\<close>, 0 when \<open>main\<close> returns, and 1 when an
  exception leaves it, which only \<open>os.makedirs\<close> can raise outside a \<open>try\<close>.
\<close>

definition main :: "string list \<Rightarrow> world \<Rightarrow> world \<times> int" where
  "main argv w =
     (if length argv < 3 then (emit Usage w, 1)
      else
        (let input_path = argv ! 1;
             output_dir = argv ! 2
         in case makedirs output_dir (files w) of
              Inl e \<Rightarrow> (w, 1)
            | Inr fs' \<Rightarrow>
                (let w1 = w\<lparr>files := fs'\<rparr>
                 in if isdir input_path (files w1) then
                      (emit (Done output_dir)
                         (fold (process_dir_entry input_path output_dir)
                            (listdir input_path (files w1)) w1), 0)
                    else if isfile input_path (files w1) then
                      (emit (Done output_dir)
                         (if endswith (lower input_path) ''.paprikarecipes''
                          then process_bulk_export input_path output_dir w1
                          else if endswith (lower input_path) ''.paprikarecipe''
                          then process_paprikarecipe_file input_path output_dir w1
                          else emit (Unrecognized input_path) w1), 0)
                    else (emit (NotFileOrDir input_path) w1, 1))))"

section \<open>Properties of the name sanitizer\<close>

subsection \<open>The substitutions\<close>

lemma re_sub_plus_skip:
  "re_sub_plus P r cs =
     takeWhile (\<lambda>d. \<not> P d) cs @ re_sub_plus P r (dropWhile (\<lambda>d. \<not> P d) cs)"
  by (induction cs) simp_all

lemma re_sub_plus_no_match: "\<forall>c \<in> set u. \<not> P c \<Longrightarrow> re_sub_plus P r u = u"
  by (induction u) simp_all


lemma re_sub_class_delete: "re_sub_class P [] u = filter (\<lambda>c. \<not> P c) u"
  by (induction u) simp_all

subsection \<open>The specification's runs are the maximal runs\<close>

lemma runs_spec_concat: "concat (runs_spec P s) = s"
  by (induction P s rule: runs_spec.induct) simp_all

lemma runs_spec_homogeneous:
  "r \<in> set (runs_spec P s) \<Longrightarrow> r \<noteq> [] \<and> (\<forall>d \<in> set r. P d = P (hd r))"
proof (induction P s rule: runs_spec.induct)
  case (1 P)
  then show ?case by simp
next
  case (2 P c cs)
  let ?Q = "\<lambda>d. P d = P c"
  from "2.prems" have "r = c # takeWhile ?Q cs \<or> r \<in> set (runs_spec P (dropWhile ?Q cs))"
    by simp
  then show ?case
  proof
    assume r: "r = c # takeWhile ?Q cs"
    have tw: "\<forall>d \<in> set (takeWhile ?Q cs). P d = P c"
      using set_takeWhileD [of _ ?Q cs] by blast
    from r have hdr: "hd r = c" and ne: "r \<noteq> []"
      and setr: "set r = insert c (set (takeWhile ?Q cs))" by simp_all
    show ?thesis
    proof (intro conjI ballI)
      show "r \<noteq> []" by (rule ne)
    next
      fix d
      assume "d \<in> set r"
      then have "d = c \<or> d \<in> set (takeWhile ?Q cs)" by (simp only: setr insert_iff)
      then show "P d = P (hd r)"
      proof
        assume "d = c"
        then show ?thesis by (simp only: hdr)
      next
        assume "d \<in> set (takeWhile ?Q cs)"
        with tw have "P d = P c" by (rule bspec)
        then show ?thesis by (simp only: hdr)
      qed
    qed
  next
    assume "r \<in> set (runs_spec P (dropWhile ?Q cs))"
    then show ?thesis by (rule "2.IH")
  qed
qed

lemma runs_spec_maximal:
  assumes "runs_spec P s = r # r' # rs"
  shows "P (hd r') \<noteq> P (hd r)"
proof (cases s)
  case Nil
  with assms show ?thesis by simp
next
  case (Cons c cs)
  with assms have "(c # takeWhile (\<lambda>d. P d = P c) cs)
      # runs_spec P (dropWhile (\<lambda>d. P d = P c) cs) = r # r' # rs"
    by simp
  then have r_eq: "r = c # takeWhile (\<lambda>d. P d = P c) cs"
    and rest: "runs_spec P (dropWhile (\<lambda>d. P d = P c) cs) = r' # rs"
    by simp_all
  from r_eq have r: "hd r = c" by simp
  from rest obtain d ds where d: "dropWhile (\<lambda>d. P d = P c) cs = d # ds"
    by (cases "dropWhile (\<lambda>d. P d = P c) cs") auto
  with rest have "hd r' = d" by auto
  moreover have "P d \<noteq> P c"
    using hd_dropWhile [of "\<lambda>d. P d = P c" cs] d by simp
  ultimately show ?thesis using r by simp
qed

subsection \<open>The code against the specification's wording\<close>

lemma strip_trim_spec: "strip s = trim_spec s"
proof -
  define t where "t = dropWhile isspace s"
  have a: "drop (length (takeWhile isspace s)) s = t"
    unfolding t_def by (simp add: dropWhile_eq_drop)
  have "rev (dropWhile isspace (rev t)) =
        rev (drop (length (takeWhile isspace (rev t))) (rev t))"
    by (simp add: dropWhile_eq_drop)
  also have "\<dots> = take (length t - length (takeWhile isspace (rev t))) t"
    by (simp add: rev_drop)
  finally show ?thesis
    unfolding strip_def trim_spec_def Let_def a t_def [symmetric] .
qed

lemma re_sub_plus_runs:
  "re_sub_plus P ''_'' u =
     concat (map (\<lambda>run. if P (hd run) then ''_'' else run) (runs_spec P u))"
proof (induction P u rule: runs_spec.induct)
  case (1 P)
  show ?case by simp
next
  case (2 P c cs)
  show ?case
  proof (cases "P c")
    case True
    then have eq: "(\<lambda>d. P d = P c) = P" by auto
    from 2 True show ?thesis by (simp add: eq)
  next
    case False
    then have eq: "(\<lambda>d. P d = P c) = (\<lambda>d. \<not> P d)" by auto
    have "re_sub_plus P ''_'' (c # cs) = c # re_sub_plus P ''_'' cs"
      using False by simp
    also have "\<dots> = c # takeWhile (\<lambda>d. \<not> P d) cs
                        @ re_sub_plus P ''_'' (dropWhile (\<lambda>d. \<not> P d) cs)"
      using re_sub_plus_skip [of P "''_''" cs] by simp
    finally show ?thesis using 2 False by (simp add: eq)
  qed
qed

lemma safe_dirname_eq_spec: "safe_dirname s = safe_dirname_spec s"
  unfolding safe_dirname_def safe_dirname_spec_def Let_def
  by (simp add: strip_trim_spec lower_def re_sub_plus_runs re_sub_class_delete
      not_word_or_hyphen_def)

lemma safe_dirname_grandma: "safe_dirname ''Grandma's Apple Pie!'' = ''grandmas_apple_pie''"
  by code_simp

text \<open>
  Claim C1. For every string, \<open>safe_dirname\<close> returns what the specification's algorithm
  returns: trim the whitespace at both ends, lowercase, replace each maximal run of
  whitespace by one underscore, delete every character that is not alphanumeric, an
  underscore or a hyphen, and return \<open>unnamed_recipe\<close> if nothing is left. It maps
  \<open>Grandma's Apple Pie!\<close> to \<open>grandmas_apple_pie\<close>.
\<close>

theorem safe_dirname_refines_spec:
  "(\<forall>s. safe_dirname s = safe_dirname_spec s)
   \<and> safe_dirname ''Grandma's Apple Pie!'' = ''grandmas_apple_pie''"
  using safe_dirname_eq_spec safe_dirname_grandma by simp

subsection \<open>Idempotence and the shape of the result\<close>


lemma lower_char_fixed: "\<not> isupper c \<Longrightarrow> lower_char c = c"
  by (simp add: lower_char_def)












subsection \<open>The fallback token\<close>

lemma not_word_not_isupper: "not_word_or_hyphen c \<Longrightarrow> \<not> isupper c"
  by (auto simp: not_word_or_hyphen_def isalnum_def isupper_def Let_def)

lemma safe_dirname_fallback:
  assumes "\<forall>c \<in> set (strip s). not_word_or_hyphen c \<and> \<not> isspace c"
  shows "safe_dirname s = ''unnamed_recipe''"
proof -
  from assms have "lower (strip s) = strip s"
    by (simp add: lower_def lower_char_fixed not_word_not_isupper map_idI)
  moreover from assms have "re_sub_plus isspace ''_'' (strip s) = strip s"
    by (simp add: re_sub_plus_no_match)
  moreover from assms have "re_sub_class not_word_or_hyphen [] (strip s) = []"
    by (simp add: re_sub_class_delete)
  ultimately show ?thesis by (simp add: safe_dirname_def)
qed

lemma strip_whitespace_only:
  assumes "\<forall>c \<in> set s. isspace c"
  shows "strip s = []"
proof -
  from assms have "dropWhile isspace s = []" by simp
  then show ?thesis unfolding strip_def by (simp only: rev.simps dropWhile.simps)
qed

lemma safe_dirname_whitespace_only:
  "\<forall>c \<in> set s. isspace c \<Longrightarrow> safe_dirname s = ''unnamed_recipe''"
  by (rule safe_dirname_fallback) (simp add: strip_whitespace_only)

text \<open>Symbols around whitespace do not give the fallback token: the whitespace becomes an
  underscore, which is kept.\<close>

lemma safe_dirname_examples:
  "safe_dirname [] = ''unnamed_recipe''"
  "safe_dirname ''   '' = ''unnamed_recipe''"
  "safe_dirname ''?!'' = ''unnamed_recipe''"
  "safe_dirname ''? !'' = ''_''"
  by code_simp+

section \<open>Properties of the record mapper\<close>

subsection \<open>Splitting into lines\<close>

lemma split_on_nonempty: "split_on sep s \<noteq> []"
  by (induction s) simp_all

lemma split_on_join: "join_with sep (split_on sep s) = s"
proof (induction s)
  case Nil
  show ?case by simp
next
  case (Cons c cs)
  obtain x xs where x: "split_on sep cs = x # xs"
    using split_on_nonempty [of sep cs] by (cases "split_on sep cs") auto
  with Cons show ?case by (cases xs) auto
qed

lemma split_on_no_sep: "x \<in> set (split_on sep s) \<Longrightarrow> sep \<notin> set x"
proof (induction s arbitrary: x)
  case Nil
  then show ?case by simp
next
  case (Cons c cs)
  obtain y ys where y: "split_on sep cs = y # ys"
    using split_on_nonempty [of sep cs] by (cases "split_on sep cs") auto
  with Cons show ?case by (auto split: if_splits)
qed

text \<open>The specification's split, by cases on the first character.\<close>

lemma split_spec_Nil: "split_spec [] = [[]]"
  by (subst split_spec.simps) simp

lemma split_spec_Cons:
  "split_spec (c # cs) =
     (if c = CHR 0x0A then [] # split_spec cs
      else (c # hd (split_spec cs)) # tl (split_spec cs))"
proof (cases "c = CHR 0x0A")
  case True
  then show ?thesis by (subst split_spec.simps) simp
next
  case False
  have "split_spec (c # cs) =
     (c # takeWhile (\<lambda>c. c \<noteq> CHR 0x0A) cs)
     # (case dropWhile (\<lambda>c. c \<noteq> CHR 0x0A) cs of [] \<Rightarrow> [] | _ # rest \<Rightarrow> split_spec rest)"
    using False by (subst split_spec.simps) simp
  moreover have "split_spec cs =
     takeWhile (\<lambda>c. c \<noteq> CHR 0x0A) cs
     # (case dropWhile (\<lambda>c. c \<noteq> CHR 0x0A) cs of [] \<Rightarrow> [] | _ # rest \<Rightarrow> split_spec rest)"
    by (rule split_spec.simps)
  ultimately show ?thesis using False by simp
qed

lemma split_on_eq_spec: "split_on (CHR 0x0A) s = split_spec s"
  by (induction s) (simp_all add: split_spec_Nil split_spec_Cons)

lemma stripped_lines_spec:
  "map strip (filter (\<lambda>line. strip line \<noteq> []) xs) = filter (\<lambda>line. line \<noteq> []) (map trim_spec xs)"
  by (induction xs) (simp_all add: strip_trim_spec)

lemma lines_field_eq_spec: "lines_field d k = lines_spec (map_of d k)"
  by (simp add: lines_field_def lines_spec_def stripped_lines_def stripped_lines_spec
      split_on_eq_spec split: option.splits json.splits)

lemma field_ingredients:
  "field_of (paprika_to_schemaorg (JObj d)) ''recipeIngredient'' = Some (lines_field d ''ingredients'')"
  by (simp add: field_of_def paprika_to_schemaorg_def Let_def)

lemma field_instructions:
  "field_of (paprika_to_schemaorg (JObj d)) ''recipeInstructions'' = Some (lines_field d ''directions'')"
  by (simp add: field_of_def paprika_to_schemaorg_def Let_def)

lemma ingredients_example:
  "field_of (paprika_to_schemaorg (JObj [(''ingredients'', JStr [CHR ''a'', CHR 0x0A, CHR ''b'', CHR 0x0A, CHR 0x0A, CHR ''c''])]))
     ''recipeIngredient'' = Some (JArr [JStr ''a'', JStr ''b'', JStr ''c''])"
  by code_simp

text \<open>
  Claim C4. For every source record, \<open>recipeIngredient\<close> and \<open>recipeInstructions\<close> are
  what the specification describes for the source's \<open>ingredients\<close> and \<open>directions\<close>:
  the string split on newline, each line trimmed, the empty lines discarded, in order, and
  the empty sequence when the field is absent or not a string. The ingredients
  \<open>a\nb\n\nc\<close> give the sequence \<open>a\<close>, \<open>b\<close>, \<open>c\<close>.
\<close>

theorem mapper_lines_refine_spec:
  "(\<forall>d. field_of (paprika_to_schemaorg (JObj d)) ''recipeIngredient''
          = Some (lines_spec (map_of d ''ingredients''))
        \<and> field_of (paprika_to_schemaorg (JObj d)) ''recipeInstructions''
          = Some (lines_spec (map_of d ''directions'')))
   \<and> field_of (paprika_to_schemaorg
        (JObj [(''ingredients'', JStr [CHR ''a'', CHR 0x0A, CHR ''b'', CHR 0x0A, CHR 0x0A, CHR ''c''])]))
       ''recipeIngredient'' = Some (JArr [JStr ''a'', JStr ''b'', JStr ''c''])"
  using field_ingredients field_instructions lines_field_eq_spec ingredients_example
  by simp

lemma lines_spec_absent: "lines_spec None = JArr []"
  by (simp add: lines_spec_def)

lemma lines_spec_not_str: "(\<forall>s. v \<noteq> JStr s) \<Longrightarrow> lines_spec (Some v) = JArr []"
  by (cases v) (simp_all add: lines_spec_def)

subsection \<open>Totality and defaults\<close>

lemma mapper_total: "\<exists>t. paprika_to_schemaorg (JObj d) = Inr t"
  by (simp add: paprika_to_schemaorg_def Let_def)

lemma mapper_name_default:
  "map_of d ''name'' = None \<Longrightarrow>
     field_of (paprika_to_schemaorg (JObj d)) ''name'' = Some (JStr ''Untitled'')"
  by (simp add: field_of_def paprika_to_schemaorg_def Let_def dict_get_def)

lemma mapper_string_fields_all:
  "list_all (\<lambda>(src, tgt). src \<noteq> ''name'' \<longrightarrow> map_of d src = None \<longrightarrow>
      field_of (paprika_to_schemaorg (JObj d)) tgt = Some (JStr [])) string_fields"
  by (simp add: string_fields_def field_of_def paprika_to_schemaorg_def Let_def dict_get_def)

lemma mapper_string_defaults:
  assumes "(src, tgt) \<in> set string_fields" and "src \<noteq> ''name''" and "map_of d src = None"
  shows "field_of (paprika_to_schemaorg (JObj d)) tgt = Some (JStr [])"
proof -
  from mapper_string_fields_all [of d]
  have "\<forall>x \<in> set string_fields. case x of (src, tgt) \<Rightarrow>
      src \<noteq> ''name'' \<longrightarrow> map_of d src = None \<longrightarrow>
      field_of (paprika_to_schemaorg (JObj d)) tgt = Some (JStr [])"
    unfolding list_all_iff .
  then have "case (src, tgt) of (src, tgt) \<Rightarrow>
      src \<noteq> ''name'' \<longrightarrow> map_of d src = None \<longrightarrow>
      field_of (paprika_to_schemaorg (JObj d)) tgt = Some (JStr [])"
    using assms(1) by (rule bspec)
  with assms(2,3) show ?thesis by simp
qed

lemma mapper_rating_default:
  "map_of d ''rating'' = None \<Longrightarrow>
     rating_field (paprika_to_schemaorg (JObj d)) ''ratingValue'' = Some (JInt 0)"
  by (simp add: rating_field_def field_of_def paprika_to_schemaorg_def Let_def dict_get_def)

lemma mapper_sequence_fields_all:
  "list_all (\<lambda>(src, tgt). map_of d src = None \<longrightarrow>
      field_of (paprika_to_schemaorg (JObj d)) tgt = Some (JArr [])) sequence_fields"
  by (simp add: sequence_fields_def field_of_def paprika_to_schemaorg_def Let_def
      dict_get_def lines_field_def)

lemma mapper_sequence_defaults:
  assumes "(src, tgt) \<in> set sequence_fields" and "map_of d src = None"
  shows "field_of (paprika_to_schemaorg (JObj d)) tgt = Some (JArr [])"
proof -
  from mapper_sequence_fields_all [of d]
  have "\<forall>x \<in> set sequence_fields. case x of (src, tgt) \<Rightarrow>
      map_of d src = None \<longrightarrow>
      field_of (paprika_to_schemaorg (JObj d)) tgt = Some (JArr [])"
    unfolding list_all_iff .
  then have "case (src, tgt) of (src, tgt) \<Rightarrow>
      map_of d src = None \<longrightarrow>
      field_of (paprika_to_schemaorg (JObj d)) tgt = Some (JArr [])"
    using assms(1) by (rule bspec)
  with assms(2) show ?thesis by simp
qed

lemma mapper_reads_source_keys_only:
  assumes "\<forall>k \<in> set source_keys. map_of d k = map_of d' k"
  shows "paprika_to_schemaorg (JObj d) = paprika_to_schemaorg (JObj d')"
  using assms
  by (simp add: source_keys_def paprika_to_schemaorg_def Let_def dict_get_def lines_field_def)

lemma mapper_same_mapping:
  "map_of d' = map_of d \<Longrightarrow> paprika_to_schemaorg (JObj d') = paprika_to_schemaorg (JObj d)"
  by (rule mapper_reads_source_keys_only) simp

text \<open>
  Claim C3 as stated fails for the string-valued field \<open>name\<close>: in the empty record it is
  absent, and the mapper gives \<open>Untitled\<close>, not the empty string.
\<close>

theorem mapper_name_default_counterexample:
  "map_of ([] :: pydict) ''name'' = None
   \<and> (''name'', ''name'') \<in> set string_fields
   \<and> field_of (paprika_to_schemaorg (JObj [])) ''name'' = Some (JStr ''Untitled'')
   \<and> field_of (paprika_to_schemaorg (JObj [])) ''name'' \<noteq> Some (JStr [])"
  by (simp add: string_fields_def field_of_def paprika_to_schemaorg_def Let_def dict_get_def)

text \<open>
  Claim C3, amended. On every source record the mapper returns a target record and
  raises nothing. An absent \<open>name\<close> gives \<open>Untitled\<close>; every other absent string-valued
  field gives the empty string; an absent \<open>rating\<close> gives the rating value 0; an absent
  sequence-valued field gives the empty sequence. The mapper is a function of the source
  record alone: records that are the same mapping give the same result.
\<close>

theorem mapper_total_with_defaults:
  "(\<exists>t. paprika_to_schemaorg (JObj d) = Inr t)
   \<and> (map_of d ''name'' = None \<longrightarrow>
        field_of (paprika_to_schemaorg (JObj d)) ''name'' = Some (JStr ''Untitled''))
   \<and> (\<forall>src tgt. (src, tgt) \<in> set string_fields \<longrightarrow> src \<noteq> ''name'' \<longrightarrow> map_of d src = None \<longrightarrow>
        field_of (paprika_to_schemaorg (JObj d)) tgt = Some (JStr []))
   \<and> (map_of d ''rating'' = None \<longrightarrow>
        rating_field (paprika_to_schemaorg (JObj d)) ''ratingValue'' = Some (JInt 0))
   \<and> (\<forall>src tgt. (src, tgt) \<in> set sequence_fields \<longrightarrow> map_of d src = None \<longrightarrow>
        field_of (paprika_to_schemaorg (JObj d)) tgt = Some (JArr []))
   \<and> (\<forall>d'. map_of d' = map_of d \<longrightarrow>
        paprika_to_schemaorg (JObj d') = paprika_to_schemaorg (JObj d))"
proof (intro conjI allI impI)
  show "\<exists>t. paprika_to_schemaorg (JObj d) = Inr t" by (rule mapper_total)
next
  fix d' :: pydict
  assume "map_of d' = map_of d"
  then show "paprika_to_schemaorg (JObj d') = paprika_to_schemaorg (JObj d)"
    by (rule mapper_same_mapping)
next
  assume "map_of d ''name'' = None"
  then show "field_of (paprika_to_schemaorg (JObj d)) ''name'' = Some (JStr ''Untitled'')"
    by (rule mapper_name_default)
next
  fix src tgt
  assume "(src, tgt) \<in> set string_fields" and "src \<noteq> ''name''" and "map_of d src = None"
  then show "field_of (paprika_to_schemaorg (JObj d)) tgt = Some (JStr [])"
    by (rule mapper_string_defaults)
next
  assume "map_of d ''rating'' = None"
  then show "rating_field (paprika_to_schemaorg (JObj d)) ''ratingValue'' = Some (JInt 0)"
    by (rule mapper_rating_default)
next
  fix src tgt
  assume "(src, tgt) \<in> set sequence_fields" and "map_of d src = None"
  then show "field_of (paprika_to_schemaorg (JObj d)) tgt = Some (JArr [])"
    by (rule mapper_sequence_defaults)
qed

theorem mapper_total_with_defaults_witness:
  "map_of [(''rating'', JInt 4)] ''name'' = None
   \<and> field_of (paprika_to_schemaorg (JObj [(''rating'', JInt 4)])) ''name'' = Some (JStr ''Untitled'')
   \<and> (''notes'', ''notes'') \<in> set string_fields \<and> ''notes'' \<noteq> ''name''
   \<and> map_of [(''rating'', JInt 4)] ''notes'' = None
   \<and> field_of (paprika_to_schemaorg (JObj [(''rating'', JInt 4)])) ''notes'' = Some (JStr [])
   \<and> map_of ([] :: pydict) ''rating'' = None
   \<and> rating_field (paprika_to_schemaorg (JObj [])) ''ratingValue'' = Some (JInt 0)
   \<and> (''categories'', ''category'') \<in> set sequence_fields
   \<and> map_of [(''rating'', JInt 4)] ''categories'' = None
   \<and> field_of (paprika_to_schemaorg (JObj [(''rating'', JInt 4)])) ''category'' = Some (JArr [])
   \<and> map_of [(''rating'', JInt 4), (''rating'', JInt 5)] = map_of [(''rating'', JInt 4)]
   \<and> paprika_to_schemaorg (JObj [(''rating'', JInt 4), (''rating'', JInt 5)])
       = paprika_to_schemaorg (JObj [(''rating'', JInt 4)])"
proof -
  let ?d = "[(''rating'', JInt 4)]"
  note t = mapper_total_with_defaults [of ?d]
  note t0 = mapper_total_with_defaults [of "[]"]
  have n: "map_of ?d ''name'' = None" by simp
  have s: "(''notes'', ''notes'') \<in> set string_fields" by (simp add: string_fields_def)
  have s': "''notes'' \<noteq> ''name''" by simp
  have s'': "map_of ?d ''notes'' = None" by simp
  have r: "map_of ([] :: pydict) ''rating'' = None" by simp
  have q: "(''categories'', ''category'') \<in> set sequence_fields"
    by (simp add: sequence_fields_def)
  have q': "map_of ?d ''categories'' = None" by simp
  note name_part = conjunct1 [OF conjunct2 [OF t]]
  note string_part = conjunct1 [OF conjunct2 [OF conjunct2 [OF t]]]
  note rating_part = conjunct1 [OF conjunct2 [OF conjunct2 [OF conjunct2 [OF t0]]]]
  note sequence_part =
    conjunct1 [OF conjunct2 [OF conjunct2 [OF conjunct2 [OF conjunct2 [OF t]]]]]
  note same_part = conjunct2 [OF conjunct2 [OF conjunct2 [OF conjunct2 [OF conjunct2 [OF t]]]]]
  have m: "map_of [(''rating'', JInt 4), (''rating'', JInt 5)] = map_of ?d"
    by (rule ext) simp
  from same_part [THEN spec, THEN mp, OF m]
  have 5: "paprika_to_schemaorg (JObj [(''rating'', JInt 4), (''rating'', JInt 5)])
       = paprika_to_schemaorg (JObj ?d)" .
  from name_part n
  have 1: "field_of (paprika_to_schemaorg (JObj ?d)) ''name'' = Some (JStr ''Untitled'')"
    by (rule mp)
  from string_part s s' s''
  have 2: "field_of (paprika_to_schemaorg (JObj ?d)) ''notes'' = Some (JStr [])"
    by (simp only: simp_thms)
  from rating_part r
  have 3: "rating_field (paprika_to_schemaorg (JObj [])) ''ratingValue'' = Some (JInt 0)"
    by (rule mp)
  from sequence_part q q'
  have 4: "field_of (paprika_to_schemaorg (JObj ?d)) ''category'' = Some (JArr [])"
    by (simp only: simp_thms)
  from n 1 s s' s'' 2 r 3 q q' 4 m 5 show ?thesis by (intro conjI)
qed

subsection \<open>The rating object and the key set\<close>

lemma rating_value: "rating_field (paprika_to_schemaorg (JObj d)) ''ratingValue'' = Some (dict_get d ''rating'' (JInt 0))"
  by (simp add: rating_field_def field_of_def paprika_to_schemaorg_def Let_def)

lemma rating_count: "rating_field (paprika_to_schemaorg (JObj d)) ''ratingCount'' = Some (JInt 1)"
  by (simp add: rating_field_def field_of_def paprika_to_schemaorg_def Let_def)

lemma tea_example:
  "rating_field (paprika_to_schemaorg (JObj [(''name'', JStr ''Tea''), (''rating'', JInt 4)])) ''ratingValue'' = Some (JInt 4)
   \<and> rating_field (paprika_to_schemaorg (JObj [(''name'', JStr ''Tea''), (''rating'', JInt 4)])) ''ratingCount'' = Some (JInt 1)
   \<and> field_of (paprika_to_schemaorg (JObj [(''name'', JStr ''Tea''), (''rating'', JInt 4)])) ''name'' = Some (JStr ''Tea'')"
  by (simp add: rating_field_def field_of_def paprika_to_schemaorg_def Let_def dict_get_def)

text \<open>
  Claim C5. For every source record the rating object of the target record has
  \<open>ratingValue\<close> equal to the source's \<open>rating\<close>, 0 when absent, and \<open>ratingCount\<close> equal
  to 1. The record with name \<open>Tea\<close> and rating 4 gives rating value 4, rating count 1 and
  name \<open>Tea\<close>.
\<close>

theorem aggregate_rating_value_and_count:
  "(\<forall>d. rating_field (paprika_to_schemaorg (JObj d)) ''ratingValue''
           = Some (dict_get d ''rating'' (JInt 0))
        \<and> rating_field (paprika_to_schemaorg (JObj d)) ''ratingCount'' = Some (JInt 1))
   \<and> rating_field (paprika_to_schemaorg (JObj [(''name'', JStr ''Tea''), (''rating'', JInt 4)]))
        ''ratingValue'' = Some (JInt 4)
   \<and> rating_field (paprika_to_schemaorg (JObj [(''name'', JStr ''Tea''), (''rating'', JInt 4)]))
        ''ratingCount'' = Some (JInt 1)
   \<and> field_of (paprika_to_schemaorg (JObj [(''name'', JStr ''Tea''), (''rating'', JInt 4)]))
        ''name'' = Some (JStr ''Tea'')"
  using rating_value rating_count tea_example by (intro conjI allI) simp_all

lemma mapper_keys: "\<exists>t. paprika_to_schemaorg (JObj d) = Inr t \<and> map fst t = schema_keys"
  by (simp add: paprika_to_schemaorg_def Let_def schema_keys_def)

lemma distinct_schema_keys: "distinct schema_keys"
  by (simp add: schema_keys_def)

lemma photo_data_not_schema_key: "''photo_data'' \<notin> set schema_keys"
  by (simp add: schema_keys_def)

lemma mapper_context_type:
  "field_of (paprika_to_schemaorg (JObj d)) ''@context'' = Some (JStr ''https://schema.org/'')
   \<and> field_of (paprika_to_schemaorg (JObj d)) ''@type'' = Some (JStr ''Recipe'')"
  by (simp add: field_of_def paprika_to_schemaorg_def Let_def)

lemma mapper_no_other_key:
  assumes "k \<notin> set schema_keys"
  shows "field_of (paprika_to_schemaorg (JObj d)) k = None"
proof -
  obtain t where t: "paprika_to_schemaorg (JObj d) = Inr t" and keys: "map fst t = schema_keys"
    using mapper_keys by blast
  from assms keys have "k \<notin> fst ` set t" by (metis set_map)
  then have "map_of t k = None" by (simp add: map_of_eq_None_iff)
  with t show ?thesis by (simp add: field_of_def)
qed

text \<open>
  Claim C10. For every source record the keys of the target record are exactly the
  eighteen fixed keys, each once and in the order of the source's literal; \<open>@context\<close> is
  \<open>https://schema.org/\<close> and \<open>@type\<close> is \<open>Recipe\<close>; no other key, \<open>photo_data\<close> among
  them, is a key of the target record; and the target record depends on nothing but the
  sixteen source keys the mapper reads, so no other source entry reaches it.
\<close>

theorem mapper_fixed_key_set:
  "(\<exists>t. paprika_to_schemaorg (JObj d) = Inr t \<and> map fst t = schema_keys)
   \<and> distinct schema_keys
   \<and> field_of (paprika_to_schemaorg (JObj d)) ''@context'' = Some (JStr ''https://schema.org/'')
   \<and> field_of (paprika_to_schemaorg (JObj d)) ''@type'' = Some (JStr ''Recipe'')
   \<and> (\<forall>k. k \<notin> set schema_keys \<longrightarrow> field_of (paprika_to_schemaorg (JObj d)) k = None)
   \<and> ''photo_data'' \<notin> set schema_keys
   \<and> (\<forall>d'. (\<forall>k \<in> set source_keys. map_of d k = map_of d' k) \<longrightarrow>
          paprika_to_schemaorg (JObj d) = paprika_to_schemaorg (JObj d'))"
proof (intro conjI allI impI)
  show "\<exists>t. paprika_to_schemaorg (JObj d) = Inr t \<and> map fst t = schema_keys"
    by (rule mapper_keys)
next
  show "distinct schema_keys" by (rule distinct_schema_keys)
next
  show "field_of (paprika_to_schemaorg (JObj d)) ''@context'' = Some (JStr ''https://schema.org/'')"
    by (rule conjunct1 [OF mapper_context_type])
next
  show "field_of (paprika_to_schemaorg (JObj d)) ''@type'' = Some (JStr ''Recipe'')"
    by (rule conjunct2 [OF mapper_context_type])
next
  fix k
  assume "k \<notin> set schema_keys"
  then show "field_of (paprika_to_schemaorg (JObj d)) k = None" by (rule mapper_no_other_key)
next
  show "''photo_data'' \<notin> set schema_keys" by (rule photo_data_not_schema_key)
next
  fix d'
  assume "\<forall>k \<in> set source_keys. map_of d k = map_of d' k"
  then show "paprika_to_schemaorg (JObj d) = paprika_to_schemaorg (JObj d')"
    by (rule mapper_reads_source_keys_only)
qed

theorem mapper_fixed_key_set_witness:
  "''photo_data'' \<notin> set schema_keys
   \<and> field_of (paprika_to_schemaorg (JObj [(''photo_data'', JStr ''QUJD''), (''name'', JStr ''Tea'')]))
        ''photo_data'' = None
   \<and> list_all (\<lambda>k. map_of [(''photo_data'', JStr ''QUJD''), (''name'', JStr ''Tea'')] k
                      = map_of [(''name'', JStr ''Tea'')] k) source_keys
   \<and> paprika_to_schemaorg (JObj [(''photo_data'', JStr ''QUJD''), (''name'', JStr ''Tea'')])
       = paprika_to_schemaorg (JObj [(''name'', JStr ''Tea'')])"
proof -
  let ?d = "[(''photo_data'', JStr ''QUJD''), (''name'', JStr ''Tea'')]"
  let ?d' = "[(''name'', JStr ''Tea'')]"
  note t = mapper_fixed_key_set [of ?d]
  note other_part = conjunct1 [OF conjunct2 [OF conjunct2 [OF conjunct2 [OF conjunct2 [OF t]]]]]
  note reads_part = conjunct2 [OF conjunct2 [OF conjunct2 [OF conjunct2 [OF conjunct2 [OF conjunct2 [OF t]]]]]]
  have p: "''photo_data'' \<notin> set schema_keys" by (simp add: schema_keys_def)
  have a: "\<forall>k \<in> set source_keys. map_of ?d k = map_of ?d' k"
    by (simp add: source_keys_def)
  from other_part p have 1: "field_of (paprika_to_schemaorg (JObj ?d)) ''photo_data'' = None"
    by (simp only: simp_thms)
  from reads_part a have 2: "paprika_to_schemaorg (JObj ?d) = paprika_to_schemaorg (JObj ?d')"
    by (simp only: simp_thms)
  from a have a': "list_all (\<lambda>k. map_of ?d k = map_of ?d' k) source_keys"
    by (simp only: list_all_iff)
  from p 1 a' 2 show ?thesis by (intro conjI)
qed

section \<open>Properties of the file system model\<close>

lemma map_of_mkdirs:
  "map_of (fold (\<lambda>q. AList.update q Dir) qs fs) p =
     (if p \<in> set qs then Some Dir else map_of fs p)"
  by (induction qs arbitrary: fs) (simp_all add: update_conv')

lemma makedirs_Inr:
  assumes "makedirs p fs = Inr fs'"
  shows "p \<noteq> []"
    and "map_of fs' q = (if q \<in> set (ancestors p) \<or> q = p then Some Dir else map_of fs q)"
    and "q \<in> set (ancestors p) \<or> q = p \<Longrightarrow> \<not> isfile q fs"
proof -
  from assms show "p \<noteq> []" by (auto simp: makedirs_def split: if_splits)
  from assms have fs': "fs' = fold (\<lambda>q. AList.update q Dir) (ancestors p @ [p]) fs"
    by (auto simp: makedirs_def split: if_splits)
  show "map_of fs' q = (if q \<in> set (ancestors p) \<or> q = p then Some Dir else map_of fs q)"
    unfolding fs' by (simp only: map_of_mkdirs) simp
  assume "q \<in> set (ancestors p) \<or> q = p"
  with assms show "\<not> isfile q fs" by (auto simp: makedirs_def split: if_splits)
qed



lemma makedirs_other:
  "makedirs p fs = Inr fs' \<Longrightarrow> q \<notin> set (ancestors p) \<Longrightarrow> q \<noteq> p \<Longrightarrow> map_of fs' q = map_of fs q"
  by (simp add: makedirs_Inr(2))

lemma makedirs_same_isfile:
  assumes "makedirs p fs = Inr fs'"
  shows "isfile q fs' = isfile q fs"
proof (cases "q \<in> set (ancestors p) \<or> q = p")
  case True
  with assms have "\<not> isfile q fs" by (rule makedirs_Inr(3))
  moreover from True assms have "map_of fs' q = Some Dir" by (simp add: makedirs_Inr(2))
  then have "\<not> isfile q fs'" by (simp add: isfile_def)
  ultimately show ?thesis by simp
next
  case False
  with assms have "map_of fs' q = map_of fs q" by (simp add: makedirs_Inr(2))
  then show ?thesis by (simp add: isfile_def)
qed

lemma makedirs_Inl_unchanged_cases:
  "makedirs p fs = Inl e \<Longrightarrow> p = [] \<or> (\<exists>q \<in> set (ancestors p). isfile q fs) \<or> isfile p fs"
  by (auto simp: makedirs_def split: if_splits)

lemma makedirs_succeeds:
  assumes "p \<noteq> []" and "\<forall>q \<in> set (ancestors p). \<not> isfile q fs" and "\<not> isfile p fs"
  shows "\<exists>fs'. makedirs p fs = Inr fs'"
  using assms by (simp add: makedirs_def)

lemma write_file_Inr:
  assumes "write_file p c fs = Inr fs'"
  shows "map_of fs' = (map_of fs)(p \<mapsto> File c)" and "\<not> isdir p fs"
  using assms
  by (auto simp: write_file_def isdir_def update_conv' split: option.splits node.splits)

lemma write_file_Inl: "write_file p c fs = Inl e \<Longrightarrow> isdir p fs \<and> e = IsADirectoryError"
  by (auto simp: write_file_def isdir_def split: option.splits node.splits)

lemma write_file_succeeds: "\<not> isdir p fs \<Longrightarrow> \<exists>fs'. write_file p c fs = Inr fs'"
  by (auto simp: write_file_def isdir_def split: option.splits node.splits)

lemma write_file_same_isdir:
  assumes "write_file p c fs = Inr fs'"
  shows "isdir q fs' = isdir q fs"
  using write_file_Inr [OF assms] by (auto simp: isdir_def)

lemma path_prefixes_length:
  "q \<in> set (path_prefixes acc p) \<Longrightarrow> length q < length acc + length p"
proof (induction p arbitrary: acc)
  case Nil
  then show ?case by simp
next
  case (Cons c cs)
  from Cons.prems have "q = acc \<or> q \<in> set (path_prefixes (acc @ [c]) cs)"
    by (auto split: if_splits)
  then show ?case
  proof
    assume "q = acc"
    then show ?thesis by simp
  next
    assume "q \<in> set (path_prefixes (acc @ [c]) cs)"
    then have "length q < length (acc @ [c]) + length cs" by (rule Cons.IH)
    then show ?thesis by simp
  qed
qed

lemma ancestors_shorter: "q \<in> set (ancestors p) \<Longrightarrow> length q < length p"
  using path_prefixes_length [of q "[]" p] by (simp add: ancestors_def)

lemma path_join_length:
  "b \<noteq> [] \<Longrightarrow> hd b \<noteq> CHR ''/'' \<Longrightarrow> length a < length (path_join a b)"
  by (cases b) (simp_all add: path_join_def)

lemma path_join_not_above:
  assumes "b \<noteq> []" and "hd b \<noteq> CHR ''/''"
  shows "path_join a b \<notin> set (ancestors a)" and "path_join a b \<noteq> a"
proof -
  from assms have l: "length a < length (path_join a b)" by (rule path_join_length)
  show "path_join a b \<notin> set (ancestors a)"
  proof
    assume "path_join a b \<in> set (ancestors a)"
    then have "length (path_join a b) < length a" by (rule ancestors_shorter)
    with l show False by simp
  qed
  from l show "path_join a b \<noteq> a" by auto
qed

lemma path_join_inject:
  assumes "b \<noteq> []" and "hd b \<noteq> CHR ''/''" and "b' \<noteq> []" and "hd b' \<noteq> CHR ''/''"
  shows "(path_join a b = path_join a b') = (b = b')"
  using assms by (simp add: path_join_def)


section \<open>Properties of the record materializer\<close>

lemma files_emit: "files (emit m w) = files w"
  by (simp add: emit_def)

lemma out_emit: "out (emit m w) = out w @ [m]"
  by (simp add: emit_def)

lemma mapper_name:
  "paprika_to_schemaorg (JObj d) = Inr t \<Longrightarrow>
     dict_get t ''name'' (JStr ''Untitled'') = dict_get d ''name'' (JStr ''Untitled'')"
  by (auto simp: paprika_to_schemaorg_def Let_def dict_get_def)


lemma mapper_not_dict: "(\<forall>d. pd \<noteq> JObj d) \<Longrightarrow> paprika_to_schemaorg pd = Inl AttributeError"
  by (cases pd) (simp_all add: paprika_to_schemaorg_def)

text \<open>The photo block, case by case.\<close>

lemma save_photo_none:
  "\<not> truthy (dict_get d ''photo_data'' JNull) \<Longrightarrow> save_photo d nm folder t w = (t, w)"
  by (simp add: save_photo_def Let_def)

lemma save_photo_undecodable:
  "truthy (dict_get d ''photo_data'' JNull) \<Longrightarrow> b64decode (dict_get d ''photo_data'' JNull) = Inl e \<Longrightarrow>
     save_photo d nm folder t w = (t, emit (PhotoError nm e) w)"
  by (simp add: save_photo_def Let_def)


lemma save_photo_blocked:
  assumes "truthy (dict_get d ''photo_data'' JNull)"
    and "b64decode (dict_get d ''photo_data'' JNull) = Inr raw"
    and "isdir (path_join folder ''full.jpg'') (files w)"
  shows "save_photo d nm folder t w = (t, emit (PhotoError nm IsADirectoryError) w)"
  using assms by (simp add: save_photo_def Let_def write_file_def isdir_def)

text \<open>The last block.\<close>

lemma write_recipe_json_written:
  assumes "\<not> isdir (path_join folder ''recipe.json'') (files w)"
  shows "\<exists>fs'. write_recipe_json nm folder src t w
           = emit (Converted (if src \<noteq> [] then src else nm) (path_join folder ''recipe.json''))
               (w\<lparr>files := fs'\<rparr>)
         \<and> map_of fs' = (map_of (files w))(path_join folder ''recipe.json'' \<mapsto> File (JsonText (JObj t)))"
proof -
  from assms obtain fs' where
    w: "write_file (path_join folder ''recipe.json'') (JsonText (JObj t)) (files w) = Inr fs'"
    using write_file_succeeds by blast
  from w have "map_of fs' = (map_of (files w))(path_join folder ''recipe.json'' \<mapsto> File (JsonText (JObj t)))"
    by (rule write_file_Inr(1))
  moreover from w have "write_recipe_json nm folder src t w
           = emit (Converted (if src \<noteq> [] then src else nm) (path_join folder ''recipe.json''))
               (w\<lparr>files := fs'\<rparr>)"
    by (simp add: write_recipe_json_def Let_def)
  ultimately show ?thesis by blast
qed

lemma write_recipe_json_blocked:
  assumes "isdir (path_join folder ''recipe.json'') (files w)"
  shows "write_recipe_json nm folder src t w = emit (WriteError nm IsADirectoryError) w"
  using assms by (simp add: write_recipe_json_def Let_def write_file_def isdir_def)

text \<open>\<open>process_recipe_data\<close> on a record with a string name, once the folder exists.\<close>

lemma process_recipe_data_steps:
  assumes "paprika_to_schemaorg (JObj d) = Inr t"
    and "dict_get d ''name'' (JStr ''Untitled'') = JStr nm"
    and "makedirs (path_join output_dir (safe_dirname nm)) (files w) = Inr fs1"
  shows "process_recipe_data (JObj d) output_dir src w =
     Inr (write_recipe_json nm (path_join output_dir (safe_dirname nm)) src
            (fst (save_photo d nm (path_join output_dir (safe_dirname nm)) t (w\<lparr>files := fs1\<rparr>)))
            (snd (save_photo d nm (path_join output_dir (safe_dirname nm)) t (w\<lparr>files := fs1\<rparr>))))"
proof -
  from assms(1,2) have "dict_get t ''name'' (JStr ''Untitled'') = JStr nm"
    by (simp add: mapper_name)
  with assms(1,3) show ?thesis
    by (simp add: process_recipe_data_def Let_def case_prod_beta)
qed

lemma process_recipe_data_raises:
  assumes "paprika_to_schemaorg (JObj d) = Inr t"
    and "dict_get d ''name'' (JStr ''Untitled'') = JStr nm"
    and "makedirs (path_join output_dir (safe_dirname nm)) (files w) = Inl e"
  shows "process_recipe_data (JObj d) output_dir src w = Inl e"
proof -
  from assms(1,2) have "dict_get t ''name'' (JStr ''Untitled'') = JStr nm"
    by (simp add: mapper_name)
  with assms(1,3) show ?thesis
    by (simp add: process_recipe_data_def Let_def)
qed

lemma under_folder_untouched:
  assumes "makedirs folder fs = Inr fs1" and "b \<noteq> []" and "hd b \<noteq> CHR ''/''"
  shows "map_of fs1 (path_join folder b) = map_of fs (path_join folder b)"
  using assms(1) path_join_not_above [OF assms(2,3), of folder] by (rule makedirs_other)




section \<open>Properties of the entry point\<close>












lemma main_invalid_input:
  assumes "\<not> length argv < 3" and "makedirs (argv ! 2) (files w) = Inr fs'"
    and "\<not> isdir (argv ! 1) fs'" and "\<not> isfile (argv ! 1) fs'"
  shows "main argv w = (emit (NotFileOrDir (argv ! 1)) (w\<lparr>files := fs'\<rparr>), 1)"
  using assms by (simp add: main_def Let_def)





section \<open>Folder name collisions\<close>

text \<open>What a record prints, and what it leaves in \<open>recipe.json\<close>, depends on the file
  system only through which paths are directories.\<close>

lemma save_photo_same_isdir:
  "isdir q (files (snd (save_photo d nm folder t w))) = isdir q (files w)"
  by (auto simp: save_photo_def Let_def files_emit write_file_same_isdir split: sum.splits)

lemma write_recipe_json_same_isdir:
  "isdir q (files (write_recipe_json nm folder src t w)) = isdir q (files w)"
  by (auto simp: write_recipe_json_def Let_def files_emit write_file_same_isdir split: sum.splits)

lemma save_photo_image_only:
  "k \<noteq> ''image'' \<Longrightarrow> map_of (fst (save_photo d nm folder t w)) k = map_of t k"
  by (auto simp: save_photo_def Let_def update_conv' split: sum.splits)

lemma write_file_sim:
  assumes "isdir p fs = isdir p fs'"
  shows "(\<exists>e. write_file p c fs = Inl e \<and> write_file p c fs' = Inl e)
       \<or> (\<exists>g g'. write_file p c fs = Inr g \<and> write_file p c fs' = Inr g')"
proof (cases "isdir p fs")
  case True
  with assms have "isdir p fs'" by simp
  with True show ?thesis by (simp add: write_file_def isdir_def)
next
  case False
  with assms have "\<not> isdir p fs'" by simp
  with False show ?thesis using write_file_succeeds by blast
qed

lemma save_photo_sim:
  assumes "\<forall>q. isdir q (files v) = isdir q (files v')"
  shows "fst (save_photo d nm folder t v) = fst (save_photo d nm folder t v')
       \<and> (\<exists>ms. out (snd (save_photo d nm folder t v)) = out v @ ms
              \<and> out (snd (save_photo d nm folder t v')) = out v' @ ms)"
proof (cases "truthy (dict_get d ''photo_data'' JNull)")
  case False
  then show ?thesis by (simp add: save_photo_none)
next
  case True
  show ?thesis
  proof (cases "b64decode (dict_get d ''photo_data'' JNull)")
    case (Inl e)
    with True show ?thesis by (simp add: save_photo_undecodable out_emit)
  next
    case (Inr raw)
    from assms have "isdir (path_join folder ''full.jpg'') (files v)
        = isdir (path_join folder ''full.jpg'') (files v')" by simp
    from write_file_sim [OF this, of "Bytes raw"] show ?thesis
    proof (elim disjE exE conjE)
      fix e
      assume "write_file (path_join folder ''full.jpg'') (Bytes raw) (files v) = Inl e"
        and "write_file (path_join folder ''full.jpg'') (Bytes raw) (files v') = Inl e"
      with True Inr show ?thesis by (simp add: save_photo_def Let_def out_emit)
    next
      fix g g'
      assume "write_file (path_join folder ''full.jpg'') (Bytes raw) (files v) = Inr g"
        and "write_file (path_join folder ''full.jpg'') (Bytes raw) (files v') = Inr g'"
      with True Inr show ?thesis by (simp add: save_photo_def Let_def)
    qed
  qed
qed

lemma write_recipe_json_sim:
  assumes "isdir (path_join folder ''recipe.json'') (files v)
         = isdir (path_join folder ''recipe.json'') (files v')"
  shows "map_of (files (write_recipe_json nm folder src t v)) (path_join folder ''recipe.json'')
       = map_of (files (write_recipe_json nm folder src t v')) (path_join folder ''recipe.json'')
       \<and> (\<exists>ms. out (write_recipe_json nm folder src t v) = out v @ ms
              \<and> out (write_recipe_json nm folder src t v') = out v' @ ms)"
proof (cases "isdir (path_join folder ''recipe.json'') (files v)")
  case True
  with assms have "isdir (path_join folder ''recipe.json'') (files v')" by simp
  with True show ?thesis
    by (simp add: write_recipe_json_blocked out_emit files_emit) (simp add: isdir_def)
next
  case False
  with assms have F': "\<not> isdir (path_join folder ''recipe.json'') (files v')" by simp
  from write_recipe_json_written [OF False, of nm src t]
    write_recipe_json_written [OF F', of nm src t]
  show ?thesis by (auto simp: out_emit files_emit)
qed

lemma process_recipe_data_returns:
  assumes "process_recipe_data (JObj d) output_dir src w = Inr w'"
    and "dict_get d ''name'' (JStr ''Untitled'') = JStr nm"
  shows "\<exists>fs1. makedirs (path_join output_dir (safe_dirname nm)) (files w) = Inr fs1"
proof (cases "makedirs (path_join output_dir (safe_dirname nm)) (files w)")
  case (Inl e)
  obtain t where "paprika_to_schemaorg (JObj d) = Inr t" using mapper_total by blast
  from process_recipe_data_raises [OF this assms(2) Inl, of src] assms(1) show ?thesis by simp
next
  case (Inr fs1)
  then show ?thesis by blast
qed

lemma makedirs_again:
  assumes "makedirs p fs = Inr fs1" and "\<forall>q. isdir q g = isdir q fs1"
  shows "\<exists>g1. makedirs p g = Inr g1 \<and> (\<forall>q. isdir q g1 = isdir q fs1)"
proof -
  have above: "isdir q g" if "q \<in> set (ancestors p) \<or> q = p" for q
    using that assms by (simp add: isdir_def makedirs_Inr(2))
  then have nofile: "\<not> isfile q g" if "q \<in> set (ancestors p) \<or> q = p" for q
    using that by (auto simp: isdir_def isfile_def)
  from assms(1) have "p \<noteq> []" by (rule makedirs_Inr(1))
  with nofile obtain g1 where g1: "makedirs p g = Inr g1"
    using makedirs_succeeds [of p g] by blast
  have "isdir q g1 = isdir q fs1" for q
  proof (cases "q \<in> set (ancestors p) \<or> q = p")
    case True
    with g1 assms(1) show ?thesis by (simp add: isdir_def makedirs_Inr(2))
  next
    case False
    with g1 have "map_of g1 q = map_of g q" by (simp add: makedirs_Inr(2))
    with assms(2) show ?thesis by (simp add: isdir_def)
  qed
  with g1 show ?thesis by blast
qed

text \<open>
  Claim C9. Let two source records have names that sanitize to the same folder name, and
  let the first be processed. Then processing the second returns as well; it prints
  exactly what it prints when processed alone, so the collision is not reported; its
  \<open>recipe.json\<close> is at the same path and is what the second record writes when processed
  alone; and if that path is not a directory, the first record's target record was there
  and the second record's target record has replaced it (the \<open>image\<close> field apart, which
  the photo block may set).
\<close>

theorem collision_last_write_wins:
  assumes name1: "dict_get d1 ''name'' (JStr ''Untitled'') = JStr n1"
    and name2: "dict_get d2 ''name'' (JStr ''Untitled'') = JStr n2"
    and same: "safe_dirname n1 = safe_dirname n2"
    and folder: "folder = path_join output_dir (safe_dirname n2)"
    and first: "process_recipe_data (JObj d1) output_dir s1 w = Inr w1"
  shows "\<exists>w2 alone ms.
        process_recipe_data (JObj d2) output_dir s2 w1 = Inr w2
      \<and> process_recipe_data (JObj d2) output_dir s2 w = Inr alone
      \<and> out w2 = out w1 @ ms \<and> out alone = out w @ ms
      \<and> map_of (files w2) (path_join folder ''recipe.json'')
          = map_of (files alone) (path_join folder ''recipe.json'')
      \<and> (\<not> isdir (path_join folder ''recipe.json'') (files w) \<longrightarrow>
           (\<exists>t1 t2. map_of (files w1) (path_join folder ''recipe.json'')
                       = Some (File (JsonText (JObj t1)))
                  \<and> map_of (files w2) (path_join folder ''recipe.json'')
                       = Some (File (JsonText (JObj t2)))
                  \<and> (\<forall>k. k \<noteq> ''image'' \<longrightarrow>
                        map_of t1 k = field_of (paprika_to_schemaorg (JObj d1)) k
                      \<and> map_of t2 k = field_of (paprika_to_schemaorg (JObj d2)) k)))"
proof -
  let ?rj = "path_join folder ''recipe.json''"
  obtain t1 where t1: "paprika_to_schemaorg (JObj d1) = Inr t1" using mapper_total by blast
  obtain t2 where t2: "paprika_to_schemaorg (JObj d2) = Inr t2" using mapper_total by blast
  from process_recipe_data_returns [OF first name1] same folder
  obtain fs1 where mk: "makedirs folder (files w) = Inr fs1" by auto
  let ?v = "w\<lparr>files := fs1\<rparr>"
  let ?p1 = "save_photo d1 n1 folder t1 ?v"
  have w1: "w1 = write_recipe_json n1 folder s1 (fst ?p1) (snd ?p1)"
    using process_recipe_data_steps [OF t1 name1, of output_dir w fs1 s1] mk first same folder
    by simp
  have dirs1: "isdir q (files w1) = isdir q fs1" for q
    unfolding w1 by (simp add: write_recipe_json_same_isdir save_photo_same_isdir)
  from makedirs_again [OF mk, of "files w1"] dirs1
  obtain g1 where g1: "makedirs folder (files w1) = Inr g1"
    and dirsg: "\<forall>q. isdir q g1 = isdir q fs1" by blast
  let ?u = "w1\<lparr>files := g1\<rparr>"
  let ?pu = "save_photo d2 n2 folder t2 ?u"
  let ?pv = "save_photo d2 n2 folder t2 ?v"
  let ?w2 = "write_recipe_json n2 folder s2 (fst ?pu) (snd ?pu)"
  let ?alone = "write_recipe_json n2 folder s2 (fst ?pv) (snd ?pv)"
  have run2: "process_recipe_data (JObj d2) output_dir s2 w1 = Inr ?w2"
    using process_recipe_data_steps [OF t2 name2, of output_dir w1 g1 s2] g1 folder by simp
  have runa: "process_recipe_data (JObj d2) output_dir s2 w = Inr ?alone"
    using process_recipe_data_steps [OF t2 name2, of output_dir w fs1 s2] mk folder by simp
  have R: "\<forall>q. isdir q (files ?u) = isdir q (files ?v)" using dirsg by simp
  from save_photo_sim [OF R, of d2 n2 folder t2]
  obtain ms1 where same_t: "fst ?pu = fst ?pv"
    and o1: "out (snd ?pu) = out w1 @ ms1" and o1': "out (snd ?pv) = out w @ ms1"
    by auto
  have R': "isdir ?rj (files (snd ?pu)) = isdir ?rj (files (snd ?pv))"
    using R by (simp add: save_photo_same_isdir)
  from write_recipe_json_sim [OF R', of n2 s2 "fst ?pv"]
  obtain ms2 where same_rj: "map_of (files ?w2) ?rj = map_of (files ?alone) ?rj"
    and o2: "out ?w2 = out (snd ?pu) @ ms2" and o2': "out ?alone = out (snd ?pv) @ ms2"
    unfolding same_t by auto
  have outs: "out ?w2 = out w1 @ (ms1 @ ms2)" "out ?alone = out w @ (ms1 @ ms2)"
    by (simp_all add: o1 o1' o2 o2')
  have content: "\<exists>t1' t2'. map_of (files w1) ?rj = Some (File (JsonText (JObj t1')))
                  \<and> map_of (files ?w2) ?rj = Some (File (JsonText (JObj t2')))
                  \<and> (\<forall>k. k \<noteq> ''image'' \<longrightarrow>
                        map_of t1' k = field_of (paprika_to_schemaorg (JObj d1)) k
                      \<and> map_of t2' k = field_of (paprika_to_schemaorg (JObj d2)) k)"
    if free: "\<not> isdir ?rj (files w)"
  proof -
    have "map_of fs1 ?rj = map_of (files w) ?rj"
      using mk by (rule under_folder_untouched) simp_all
    with free have nd: "\<not> isdir ?rj (files ?v)" by (simp add: isdir_def)
    then have nd1: "\<not> isdir ?rj (files (snd ?p1))" by (simp add: save_photo_same_isdir)
    from nd have nd2: "\<not> isdir ?rj (files (snd ?pv))" by (simp add: save_photo_same_isdir)
    from write_recipe_json_written [OF nd1, of n1 s1 "fst ?p1"]
    have c1: "map_of (files w1) ?rj = Some (File (JsonText (JObj (fst ?p1))))"
      unfolding w1 by (auto simp: files_emit)
    from write_recipe_json_written [OF nd2, of n2 s2 "fst ?pv"]
    have "map_of (files ?alone) ?rj = Some (File (JsonText (JObj (fst ?pv))))"
      by (auto simp: files_emit)
    with same_rj have c2: "map_of (files ?w2) ?rj = Some (File (JsonText (JObj (fst ?pv))))"
      by simp
    have "map_of (fst ?p1) k = field_of (paprika_to_schemaorg (JObj d1)) k
        \<and> map_of (fst ?pv) k = field_of (paprika_to_schemaorg (JObj d2)) k"
      if "k \<noteq> ''image''" for k
      using that by (simp add: save_photo_image_only t1 t2 field_of_def)
    with c1 c2 show ?thesis by blast
  qed
  from run2 runa outs same_rj content show ?thesis
    by (intro exI [of _ ?w2] exI [of _ ?alone] exI [of _ "ms1 @ ms2"] conjI impI)
qed

theorem collision_last_write_wins_witness:
  "dict_get [(''name'', JStr ''Apple Pie''), (''notes'', JStr ''first'')] ''name'' (JStr ''Untitled'')
     = JStr ''Apple Pie''
   \<and> dict_get [(''name'', JStr ''apple  pie!''), (''notes'', JStr ''second'')] ''name'' (JStr ''Untitled'')
     = JStr ''apple  pie!''
   \<and> safe_dirname ''Apple Pie'' = safe_dirname ''apple  pie!''
   \<and> path_join ''out'' (safe_dirname ''apple  pie!'') = ''out/apple_pie''
   \<and> isdir ''out/apple_pie/recipe.json'' [] = False
   \<and> process_recipe_data (JObj [(''name'', JStr ''Apple Pie''), (''notes'', JStr ''first'')])
        ''out'' [] \<lparr>files = [], out = []\<rparr>
      = Inr (projr (process_recipe_data
          (JObj [(''name'', JStr ''Apple Pie''), (''notes'', JStr ''first'')])
          ''out'' [] \<lparr>files = [], out = []\<rparr>))
   \<and> stored_field (files (projr (process_recipe_data
          (JObj [(''name'', JStr ''Apple Pie''), (''notes'', JStr ''first'')])
          ''out'' [] \<lparr>files = [], out = []\<rparr>))) ''out/apple_pie/recipe.json'' ''notes''
      = Some (JStr ''first'')
   \<and> stored_field (files (projr (process_recipe_data
          (JObj [(''name'', JStr ''apple  pie!''), (''notes'', JStr ''second'')]) ''out'' []
          (projr (process_recipe_data
            (JObj [(''name'', JStr ''Apple Pie''), (''notes'', JStr ''first'')])
            ''out'' [] \<lparr>files = [], out = []\<rparr>))))) ''out/apple_pie/recipe.json'' ''notes''
      = Some (JStr ''second'')
   \<and> out (projr (process_recipe_data
          (JObj [(''name'', JStr ''apple  pie!''), (''notes'', JStr ''second'')]) ''out'' []
          (projr (process_recipe_data
            (JObj [(''name'', JStr ''Apple Pie''), (''notes'', JStr ''first'')])
            ''out'' [] \<lparr>files = [], out = []\<rparr>))))
      = [Converted ''Apple Pie'' ''out/apple_pie/recipe.json'',
         Converted ''apple  pie!'' ''out/apple_pie/recipe.json'']"
proof -
  let ?d1 = "[(''name'', JStr ''Apple Pie''), (''notes'', JStr ''first'')]"
  let ?d2 = "[(''name'', JStr ''apple  pie!''), (''notes'', JStr ''second'')]"
  let ?w = "\<lparr>files = [], out = []\<rparr>"
  let ?w1 = "projr (process_recipe_data (JObj ?d1) ''out'' [] ?w)"
  let ?rj = "''out/apple_pie/recipe.json''"
  have n1: "dict_get ?d1 ''name'' (JStr ''Untitled'') = JStr ''Apple Pie''"
    by (simp add: dict_get_def)
  have n2: "dict_get ?d2 ''name'' (JStr ''Untitled'') = JStr ''apple  pie!''"
    by (simp add: dict_get_def)
  have same: "safe_dirname ''Apple Pie'' = safe_dirname ''apple  pie!''" by code_simp
  have f: "path_join ''out'' (safe_dirname ''apple  pie!'') = ''out/apple_pie''" by code_simp
  have rj: "path_join ''out/apple_pie'' ''recipe.json'' = ?rj" by (simp add: path_join_def)
  have free: "isdir ?rj [] = False" by (simp add: isdir_def)
  have first: "process_recipe_data (JObj ?d1) ''out'' [] ?w = Inr ?w1" by code_simp
  have o1: "out ?w1 = [Converted ''Apple Pie'' ?rj]" by code_simp
  have s1: "stored_field (files ?w1) ?rj ''notes'' = Some (JStr ''first'')" by code_simp
  have o2: "out (projr (process_recipe_data (JObj ?d2) ''out'' [] ?w))
      = [Converted ''apple  pie!'' ?rj]" by code_simp
  have fld: "field_of (paprika_to_schemaorg (JObj ?d2)) ''notes'' = Some (JStr ''second'')"
    by (simp add: field_of_def paprika_to_schemaorg_def Let_def dict_get_def)
  have k: "''notes'' \<noteq> ''image''" by simp
  from collision_last_write_wins [OF n1 n2 same f [symmetric] first, of "[]"] free o1 o2 fld k
  have "stored_field (files (projr (process_recipe_data (JObj ?d2) ''out'' [] ?w1))) ?rj ''notes''
      = Some (JStr ''second'')
    \<and> out (projr (process_recipe_data (JObj ?d2) ''out'' [] ?w1))
      = [Converted ''Apple Pie'' ?rj, Converted ''apple  pie!'' ?rj]"
    by (elim exE conjE) (clarsimp simp: rj stored_field_def)
  with n1 n2 same f free first s1 show ?thesis by (intro conjI) simp_all
qed

text \<open>
  The theorem is about \<open>recipe.json\<close>. A \<open>full.jpg\<close> is written only by a record with a
  photo, so the photo of an earlier record stays in the shared folder when the later
  record has none.
\<close>

lemma collision_earlier_photo_stays:
  "map_of (files (projr (process_recipe_data (JObj [(''name'', JStr ''tea'')]) ''out'' []
        (projr (process_recipe_data
           (JObj [(''name'', JStr ''Tea''), (''photo_data'', JStr ''QUJD'')]) ''out'' []
           \<lparr>files = [], out = []\<rparr>))))) ''out/tea/full.jpg''
     = Some (File (Bytes [65, 66, 67]))
   \<and> stored_field (files (projr (process_recipe_data (JObj [(''name'', JStr ''tea'')]) ''out'' []
        (projr (process_recipe_data
           (JObj [(''name'', JStr ''Tea''), (''photo_data'', JStr ''QUJD'')]) ''out'' []
           \<lparr>files = [], out = []\<rparr>))))) ''out/tea/recipe.json'' ''name''
     = Some (JStr ''tea'')
   \<and> stored_field (files (projr (process_recipe_data (JObj [(''name'', JStr ''tea'')]) ''out'' []
        (projr (process_recipe_data
           (JObj [(''name'', JStr ''Tea''), (''photo_data'', JStr ''QUJD'')]) ''out'' []
           \<lparr>files = [], out = []\<rparr>))))) ''out/tea/recipe.json'' ''image''
     = Some (JStr [])"
  by code_simp

section \<open>Properties of the archive resolver\<close>































end
